theory Spec2Isabelle
  imports Main "HOL-Library.Char_ord" "HOL-Library.List_Lexorder" "HOL-Library.Product_Lexorder"
begin

section \<open>Outcomes of Go calls\<close>

text \<open>
  A Go call either returns, panics (a slice expression out of range, an explicit
  \<^verbatim>\<open>panic\<close>), or ends the running test through \<^verbatim>\<open>t.Fatalf\<close>. The messages of
  panics and fatal errors are not modelled.
\<close>

datatype 'a res = Panic | Fatal | Return 'a

section \<open>OpenTelemetry ingestion (package opentelemetry)\<close>

subsection \<open>Data\<close>

text \<open>\<^verbatim>\<open>logstorage.Field\<close>: a name and a value.\<close>

record Field =
  Name :: string
  Val :: string

text \<open>
  What the decoder hands to its callback for one log record: the timestamp, the fields and
  the number of leading fields that are stream fields.
\<close>

type_synonym row = "int \<times> Field list \<times> nat"

text \<open>
  The three arguments of one call \<^verbatim>\<open>lmp.AddRow(timestamp, fields, streamFields)\<close>.
  A nil \<^verbatim>\<open>streamFields\<close> slice is \<open>None\<close>.
\<close>

record added_row =
  timestamp :: int
  allFields :: "Field list"
  streamFields :: "Field list option"

text \<open>The fields of \<^verbatim>\<open>insertutil.CommonParams\<close> that the handler reads.\<close>

record CommonParams =
  StreamFields :: "string list"
  MsgFields :: "string list"

record request =
  contentType :: string
  contentEncoding :: string
  body :: string

text \<open>
  The calls of the handler that are observable from outside, in the order they happen:
  the backpressure check \<^verbatim>\<open>insertutil.CanWriteData()\<close>, every \<^verbatim>\<open>lmp.AddRow\<close>
  and the closing \<^verbatim>\<open>lmp.MustClose()\<close>.
\<close>

datatype event = EvCanWriteData | EvAddRow added_row | EvMustClose

record world =
  events :: "event list"
  requestsProtobufTotal :: nat
  errorsTotal :: nat

text \<open>
  The collaborators of the handler whose code is outside this package, taken as parameters:
  the content-type test, the parser of the common request parameters, the current answer of
  the backpressure check (\<open>None\<close> is Go's nil error), the reader that inflates the body
  under the size limit, and the parser of the protobuf wire format.
\<close>

record env =
  IsJSONContentType :: "string \<Rightarrow> bool"
  GetCommonParams :: "request \<Rightarrow> string + CommonParams"
  CanWriteData :: "string option"
  ReadUncompressedData :: "string \<Rightarrow> string \<Rightarrow> string + string"
  parseLogsData :: "string \<Rightarrow> string + row list"

definition addedRows :: "world \<Rightarrow> added_row list" where
  "addedRows w = concat (map (\<lambda>e. case e of EvAddRow r \<Rightarrow> [r] | _ \<Rightarrow> []) (events w))"

definition emit :: "event \<Rightarrow> world \<Rightarrow> world" where
  "emit e w = w\<lparr>events := events w @ [e]\<rparr>"

subsection \<open>Formatting\<close>

text \<open>The verb \<^verbatim>\<open>%d\<close> of \<^verbatim>\<open>fmt\<close> on a non-negative integer.\<close>

fun itoa :: "nat \<Rightarrow> string" where
  "itoa n = (if n < 10 then [char_of (48 + n)] else itoa (n div 10) @ [char_of (48 + n mod 10)])"

declare itoa.simps [simp del]

subsection \<open>Renaming the message field\<close>

text \<open>
  Modelled from the spec: \<^verbatim>\<open>logstorage.RenameField\<close> (lib/logstorage) is not among the
  sources. The spec says that the fields matching the message-field names are renamed to the
  reserved name. The call site passes a sub-slice by value and takes no result, so the
  function can only overwrite elements of that sub-slice: the result has the length of the
  argument.
\<close>

definition RenameField :: "Field list \<Rightarrow> string list \<Rightarrow> string \<Rightarrow> Field list" where
  "RenameField fs oldNames newName =
     map (\<lambda>f. if Name f \<in> set oldNames then f\<lparr>Name := newName\<rparr> else f) fs"

subsection \<open>pushProtobufRequest\<close>

text \<open>
  The closure \<^verbatim>\<open>pushLogs\<close>. The slice expressions \<^verbatim>\<open>fields[streamFieldsLen:]\<close>
  and \<^verbatim>\<open>fields[:streamFieldsLen]\<close> panic when \<^verbatim>\<open>streamFieldsLen\<close> exceeds the length.
  The renaming mutates the tail of \<^verbatim>\<open>fields\<close> in place; \<^verbatim>\<open>streamFields\<close> is a
  slice of the same array, taken after the renaming.
\<close>

definition pushLogs :: "string list \<Rightarrow> bool \<Rightarrow> row \<Rightarrow> world \<Rightarrow> unit res \<times> world" where
  "pushLogs msgFields useDefaultStreamFields r w =
     (case r of (ts, fs, streamFieldsLen) \<Rightarrow>
        if length fs < streamFieldsLen then (Panic, w)
        else
          let fs' = take streamFieldsLen fs @ RenameField (drop streamFieldsLen fs) msgFields ''_msg'';
              sfs = (if useDefaultStreamFields then Some (take streamFieldsLen fs') else None)
          in (Return (), emit (EvAddRow \<lparr>timestamp = ts, allFields = fs', streamFields = sfs\<rparr>) w))"

text \<open>The decoder calls its callback once for each log record, in order.\<close>

fun pushAll :: "(row \<Rightarrow> world \<Rightarrow> unit res \<times> world) \<Rightarrow> row list \<Rightarrow> world \<Rightarrow> unit res \<times> world" where
  "pushAll push [] w = (Return (), w)"
| "pushAll push (r # rs) w =
     (case push r w of
        (Return u, w') \<Rightarrow> pushAll push rs w'
      | (x, w') \<Rightarrow> (x, w'))"

text \<open>
  Modelled from the spec: \<^verbatim>\<open>decodeLogsData\<close> (the OTLP protobuf decoder of this package)
  is not among the sources. The spec says that it emits one row for each leaf log record and
  that a decoding failure aborts the whole request with no partial commit: the payload is
  parsed as a whole, and the callback runs only when the parse succeeded. The result is
  Go's error: \<open>None\<close> is nil.
\<close>

definition decodeLogsData ::
  "env \<Rightarrow> string \<Rightarrow> (row \<Rightarrow> world \<Rightarrow> unit res \<times> world) \<Rightarrow> world \<Rightarrow> string option res \<times> world" where
  "decodeLogsData E data push w =
     (case parseLogsData E data of
        Inl e \<Rightarrow> (Return (Some e), w)
      | Inr rows \<Rightarrow>
          (case pushAll push rows w of
             (Return u, w') \<Rightarrow> (Return None, w')
           | (Panic, w') \<Rightarrow> (Panic, w')
           | (Fatal, w') \<Rightarrow> (Fatal, w')))"

definition pushProtobufRequest ::
  "env \<Rightarrow> string \<Rightarrow> string list \<Rightarrow> bool \<Rightarrow> world \<Rightarrow> string option res \<times> world" where
  "pushProtobufRequest E data msgFields useDefaultStreamFields w =
     (case decodeLogsData E data (pushLogs msgFields useDefaultStreamFields) w of
        (Return (Some err), w') \<Rightarrow>
          (Return (Some (''cannot decode LogsData request from '' @ itoa (length data)
                         @ '' bytes: '' @ err)),
           w'\<lparr>errorsTotal := errorsTotal w' + 1\<rparr>)
      | (x, w') \<Rightarrow> (x, w'))"

subsection \<open>handleProtobuf and RequestHandler\<close>

text \<open>
  The result is the message written by \<^verbatim>\<open>httpserver.Errorf\<close>, or \<open>None\<close> when the
  handler wrote no error. The duration summary is not modelled. A panic in the callback
  leaves the handler before \<^verbatim>\<open>lmp.MustClose()\<close>.
\<close>

definition handleProtobuf :: "env \<Rightarrow> request \<Rightarrow> world \<Rightarrow> string option res \<times> world" where
  "handleProtobuf E r w =
     (let w1 = w\<lparr>requestsProtobufTotal := requestsProtobufTotal w + 1\<rparr> in
      case GetCommonParams E r of
        Inl err \<Rightarrow> (Return (Some (''cannot parse common params from request: '' @ err)), w1)
      | Inr cp \<Rightarrow>
          (let w2 = emit EvCanWriteData w1 in
           case CanWriteData E of
             Some err \<Rightarrow> (Return (Some err), w2)
           | None \<Rightarrow>
               (case ReadUncompressedData E (body r) (contentEncoding r) of
                  Inl err \<Rightarrow>
                    (Return (Some (''cannot read OpenTelemetry protocol data: '' @ err)), w2)
                | Inr data \<Rightarrow>
                    (let useDefaultStreamFields = (length (StreamFields cp) = 0) in
                     case pushProtobufRequest E data (MsgFields cp) useDefaultStreamFields w2 of
                       (Return err, w3) \<Rightarrow>
                         (let w4 = emit EvMustClose w3 in
                          case err of
                            Some e \<Rightarrow>
                              (Return (Some (''cannot read OpenTelemetry protocol data: '' @ e)), w4)
                          | None \<Rightarrow> (Return None, w4))
                     | (Panic, w3) \<Rightarrow> (Panic, w3)
                     | (Fatal, w3) \<Rightarrow> (Fatal, w3)))))"

text \<open>
  The result pairs the boolean that \<^verbatim>\<open>RequestHandler\<close> returns with the error
  message written to the response, if any.
\<close>

definition RequestHandler ::
  "env \<Rightarrow> string \<Rightarrow> request \<Rightarrow> world \<Rightarrow> (bool \<times> string option) res \<times> world" where
  "RequestHandler E path r w =
     (if path = ''/insert/opentelemetry/v1/logs'' then
        (if IsJSONContentType E (contentType r) then
           (Return (True, Some ''json encoding isn't supported for opentelemetry format. Use protobuf encoding''), w)
         else
           (case handleProtobuf E r w of
              (Return err, w') \<Rightarrow> (Return (True, err), w')
            | (Panic, w') \<Rightarrow> (Panic, w')
            | (Fatal, w') \<Rightarrow> (Fatal, w')))
      else (Return (False, None), w))"

subsection \<open>Concrete inputs\<close>

definition w0 :: world where
  "w0 = \<lparr>events = [], requestsProtobufTotal = 0, errorsTotal = 0\<rparr>"

definition req0 :: request where
  "req0 = \<lparr>contentType = ''application/x-protobuf'', contentEncoding = '''', body = ''payload''\<rparr>"

definition reqJSON :: request where
  "reqJSON = \<lparr>contentType = ''application/json'', contentEncoding = '''', body = ''{}''\<rparr>"

definition fld :: "string \<Rightarrow> string \<Rightarrow> Field" where
  "fld n v = \<lparr>Name = n, Val = v\<rparr>"

text \<open>
  An environment for a caller that gave no stream fields and the message field
  \<^verbatim>\<open>body\<close>; the payload \<^verbatim>\<open>payload\<close> holds two records with one resource
  attribute each, and every other payload is corrupt.
\<close>

definition rows0 :: "row list" where
  "rows0 = [(1, [fld ''service'' ''a'', fld ''body'' ''hello''], 1),
            (2, [fld ''service'' ''b'', fld ''level'' ''info''], 1)]"

definition env0 :: env where
  "env0 = \<lparr>IsJSONContentType = (\<lambda>ct. ct = ''application/json''),
            GetCommonParams = (\<lambda>r. Inr \<lparr>StreamFields = [], MsgFields = [''body'']\<rparr>),
            CanWriteData = None,
            ReadUncompressedData = (\<lambda>b enc. Inr b),
            parseLogsData = (\<lambda>d. if d = ''payload'' then Inr rows0 else Inl ''corrupt record'')\<rparr>"

text \<open>A caller that configured the stream field \<^verbatim>\<open>host\<close>.\<close>

definition envExplicit :: env where
  "envExplicit = env0\<lparr>GetCommonParams := (\<lambda>r. Inr \<lparr>StreamFields = [''host''], MsgFields = [''body'']\<rparr>)\<rparr>"



definition reqCorrupt :: request where
  "reqCorrupt = \<lparr>contentType = ''application/x-protobuf'', contentEncoding = '''', body = ''garbage''\<rparr>"

section \<open>Test harness (package apptest)\<close>

subsection \<open>Strings\<close>

definition HasPrefix :: "string \<Rightarrow> string \<Rightarrow> bool" where
  "HasPrefix s p = (take (length p) s = p)"

text \<open>\<^verbatim>\<open>strings.IndexByte\<close>; the result -1 is \<open>None\<close>.\<close>

fun IndexByte :: "string \<Rightarrow> char \<Rightarrow> nat option" where
  "IndexByte [] c = None"
| "IndexByte (x # xs) c = (if x = c then Some 0 else map_option Suc (IndexByte xs c))"

fun Join :: "string list \<Rightarrow> string \<Rightarrow> string" where
  "Join [] sep = []"
| "Join [x] sep = x"
| "Join (x # y # ys) sep = x @ sep @ Join (y # ys) sep"

subsection \<open>setDefaultFlags\<close>

text \<open>The first loop: the name of each flag is what precedes its first \<^verbatim>\<open>=\<close>.\<close>

fun collectFlagNames :: "string list \<Rightarrow> string list \<Rightarrow> string list res" where
  "collectFlagNames [] flagNames = Return flagNames"
| "collectFlagNames (f # fs) flagNames =
     (if \<not> HasPrefix f ''-'' then Panic
      else case IndexByte f (CHR ''='') of
             None \<Rightarrow> Panic
           | Some n \<Rightarrow> collectFlagNames fs (flagNames @ [take n f]))"

text \<open>
  The second loop. Go leaves the iteration order of a map open: the default flags are the
  entries of the map in the order in which the loop visits them.
\<close>

fun addDefaultFlags :: "(string \<times> string) list \<Rightarrow> string list \<Rightarrow> string list \<Rightarrow> string list res" where
  "addDefaultFlags [] flagNames flags = Return flags"
| "addDefaultFlags ((name, v) # ds) flagNames flags =
     (if \<not> HasPrefix name ''-'' then Panic
      else if name \<notin> set flagNames then addDefaultFlags ds flagNames (flags @ [name @ ''='' @ v])
      else addDefaultFlags ds flagNames flags)"

definition setDefaultFlags :: "string list \<Rightarrow> (string \<times> string) list \<Rightarrow> string list res" where
  "setDefaultFlags flags defaultFlags =
     (case collectFlagNames flags [] of
        Return flagNames \<Rightarrow> addDefaultFlags defaultFlags flagNames flags
      | Panic \<Rightarrow> Panic
      | Fatal \<Rightarrow> Fatal)"

text \<open>The name of a well-formed flag.\<close>

definition flagName :: "string \<Rightarrow> string" where
  "flagName f = takeWhile (\<lambda>c. c \<noteq> CHR ''='') f"

subsection \<open>Starting applications\<close>

datatype extractRE = httpListenAddrRE | logsStorageDataPathRE

text \<open>The struct \<^verbatim>\<open>app\<close> without its process handle.\<close>

record app =
  appInstance :: string
  appBinary :: string
  appFlags :: "string list"

record vlnode =
  nodeApp :: app
  metricsURL :: string
  httpListenAddr :: string

record Vlsingle =
  node :: vlnode
  storageDataPath :: string

record Vlcluster =
  storageNodes :: "Vlsingle list"
  insertNode :: vlnode
  selectNode :: vlnode

text \<open>
  What the harness takes from outside: the started binary, given as the text that each
  regular expression extracts from its log (\<open>None\<close> when the binary does not start or the
  extraction times out); the path built from the temporary directory and the clock; and
  the order in which a \<^verbatim>\<open>range\<close> loop visits the entries of a map.
\<close>

record harness =
  startProcess :: "string \<Rightarrow> string \<Rightarrow> string list \<Rightarrow> (extractRE \<Rightarrow> string) option"
  newStorageDataPath :: "string \<Rightarrow> string"
  rangeOrder :: "(string \<times> string) list \<Rightarrow> (string \<times> string) list"

text \<open>Sequencing of calls over the list of the applications started so far.\<close>

definition bindR :: "'a res \<times> 's \<Rightarrow> ('a \<Rightarrow> 's \<Rightarrow> 'b res \<times> 's) \<Rightarrow> 'b res \<times> 's" where
  "bindR m f = (case m of (Return x, s) \<Rightarrow> f x s | (Panic, s) \<Rightarrow> (Panic, s) | (Fatal, s) \<Rightarrow> (Fatal, s))"

definition mustStartApp ::
  "harness \<Rightarrow> string \<Rightarrow> string \<Rightarrow> string list \<Rightarrow> extractRE list \<Rightarrow> app list
     \<Rightarrow> (app \<times> string list) res \<times> app list" where
  "mustStartApp H inst bin flags extractREs procs =
     (case startProcess H inst bin flags of
        None \<Rightarrow> (Fatal, procs)
      | Some out \<Rightarrow>
          (let a = \<lparr>appInstance = inst, appBinary = bin, appFlags = flags\<rparr>
           in (Return (a, map out extractREs), procs @ [a])))"

definition mustStartVlnode ::
  "harness \<Rightarrow> string \<Rightarrow> string list \<Rightarrow> extractRE list \<Rightarrow> app list
     \<Rightarrow> (vlnode \<times> string list) res \<times> app list" where
  "mustStartVlnode H inst flags extraExtractREs procs =
     (let extractREs = [httpListenAddrRE] @ extraExtractREs in
      bindR (setDefaultFlags flags [(''-httpListenAddr'', ''127.0.0.1:0'')], procs) (\<lambda>flags' procs1.
      bindR (mustStartApp H inst ''../../bin/victoria-logs'' flags' extractREs procs1) (\<lambda>(a, extracts) procs2.
        (case extracts of
           [] \<Rightarrow> (Panic, procs2)
         | e0 # rest \<Rightarrow>
             (Return (\<lparr>nodeApp = a, metricsURL = ''http://'' @ e0 @ ''/metrics'', httpListenAddr = e0\<rparr>, rest),
              procs2)))))"

definition MustStartVlsingle ::
  "harness \<Rightarrow> string \<Rightarrow> string list \<Rightarrow> app list \<Rightarrow> Vlsingle res \<times> app list" where
  "MustStartVlsingle H inst flags procs =
     (let sdp = newStorageDataPath H inst in
      bindR (setDefaultFlags flags
               (rangeOrder H [(''-storageDataPath'', sdp), (''-retentionPeriod'', ''100y'')]), procs)
        (\<lambda>flags' procs1.
      bindR (mustStartVlnode H inst flags' [logsStorageDataPathRE] procs1) (\<lambda>(n, extracts) procs2.
        (case extracts of
           [] \<Rightarrow> (Panic, procs2)
         | e0 # rest \<Rightarrow> (Return \<lparr>node = n, storageDataPath = e0\<rparr>, procs2)))))"

text \<open>The loop that starts the storage nodes, over the values of its counter.\<close>

fun startStorageNodes ::
  "harness \<Rightarrow> string \<Rightarrow> string list \<Rightarrow> nat list \<Rightarrow> Vlsingle list \<Rightarrow> app list
     \<Rightarrow> Vlsingle list res \<times> app list" where
  "startStorageNodes H inst storageFlags [] nodes procs = (Return nodes, procs)"
| "startStorageNodes H inst storageFlags (i # is) nodes procs =
     bindR (MustStartVlsingle H (inst @ ''-storage-'' @ itoa i) storageFlags procs) (\<lambda>n procs1.
       startStorageNodes H inst storageFlags is (nodes @ [n]) procs1)"

definition MustStartVlcluster ::
  "harness \<Rightarrow> string \<Rightarrow> string list \<Rightarrow> app list \<Rightarrow> Vlcluster res \<times> app list" where
  "MustStartVlcluster H inst storageFlags procs =
     bindR (startStorageNodes H inst storageFlags [0, 1, 2] [] procs) (\<lambda>nodes procs1.
       (let storageNodeAddrs = map (\<lambda>s. httpListenAddr (node s)) nodes;
            storageNodeFlag = ''-storageNode='' @ Join storageNodeAddrs '','';
            insertFlags = [storageNodeFlag, ''-select.disable=true''];
            selectFlags = [storageNodeFlag, ''-insert.disable=true'']
        in
        bindR (mustStartVlnode H (inst @ ''-insert'') insertFlags [] procs1) (\<lambda>(insertN, x) procs2.
        bindR (mustStartVlnode H (inst @ ''-select'') selectFlags [] procs2) (\<lambda>(selectN, y) procs3.
          (Return \<lparr>storageNodes = nodes, insertNode = insertN, selectNode = selectN\<rparr>, procs3)))))"

subsection \<open>The parsed query response\<close>

record LogsQLQueryResponse =
  LogLines :: "string list"

text \<open>Go's \<^verbatim>\<open>delete(m, key)\<close> on a map.\<close>

definition delete :: "('k \<rightharpoonup> 'v) \<Rightarrow> 'k \<Rightarrow> ('k \<rightharpoonup> 'v)" where
  "delete m k = m(k := None)"

text \<open>
  The loop of \<^verbatim>\<open>NewLogsQLQueryResponse\<close> over the unread part of the buffer.
  \<^verbatim>\<open>ReadString\<close> returns the text up to and including the first line feed, or the rest of
  the buffer together with \<^verbatim>\<open>io.EOF\<close> when there is none. The two functions of
  \<^verbatim>\<open>encoding/json\<close> are parameters: \<open>unmarshal\<close> parses a line into a map, \<open>marshal\<close>
  writes a map; \<open>None\<close> is an error, which ends the test.
\<close>

function readLogLines ::
  "(string \<Rightarrow> (string \<rightharpoonup> 'v) option) \<Rightarrow> ((string \<rightharpoonup> 'v) \<Rightarrow> string option) \<Rightarrow> string \<Rightarrow> string list
     \<Rightarrow> string list res" where
  "readLogLines unmarshal marshal bs acc =
     (case IndexByte bs (CHR 0x0A) of
        None \<Rightarrow> (if length bs > 0 then Fatal else Return acc)
      | Some i \<Rightarrow>
          (let logLine = take (Suc i) bs in
           case unmarshal logLine of
             None \<Rightarrow> Fatal
           | Some lv \<Rightarrow>
               (case marshal (delete lv ''_stream_id'') of
                  None \<Rightarrow> Fatal
                | Some normalizedLine \<Rightarrow>
                    readLogLines unmarshal marshal (drop (Suc i) bs) (acc @ [normalizedLine]))))"
  by pat_completeness auto
termination
  apply (relation "measure (\<lambda>(unmarshal, marshal, bs, acc). length bs)")
   apply simp
  apply (case_tac bs)
   apply auto
  done

declare readLogLines.simps [simp del]

definition NewLogsQLQueryResponse ::
  "(string \<Rightarrow> (string \<rightharpoonup> 'v) option) \<Rightarrow> ((string \<rightharpoonup> 'v) \<Rightarrow> string option) \<Rightarrow> string
     \<Rightarrow> LogsQLQueryResponse res" where
  "NewLogsQLQueryResponse unmarshal marshal s =
     (if length s = 0 then Return \<lparr>LogLines = []\<rparr>
      else case readLogLines unmarshal marshal s [] of
             Return ls \<Rightarrow> Return \<lparr>LogLines = ls\<rparr>
           | Panic \<Rightarrow> Panic
           | Fatal \<Rightarrow> Fatal)"

text \<open>
  A small codec for the concrete inputs: a line is a comma-separated list of keys, each with
  the value 1, and a map is written as the keys it holds among \<^verbatim>\<open>_msg\<close>,
  \<^verbatim>\<open>_stream_id\<close> and \<^verbatim>\<open>x\<close>.
\<close>

fun splitOn :: "char \<Rightarrow> string \<Rightarrow> string \<Rightarrow> string list" where
  "splitOn c [] cur = [cur]"
| "splitOn c (x # xs) cur = (if x = c then cur # splitOn c xs [] else splitOn c xs (cur @ [x]))"

definition unmarshal0 :: "string \<Rightarrow> (string \<rightharpoonup> nat) option" where
  "unmarshal0 l = Some (map_of (map (\<lambda>k. (k, 1)) (splitOn (CHR '','') (filter (\<lambda>c. c \<noteq> CHR 0x0A) l) [])))"

definition marshal0 :: "(string \<rightharpoonup> nat) \<Rightarrow> string option" where
  "marshal0 m = Some (Join (filter (\<lambda>k. m k \<noteq> None) [''_msg'', ''_stream_id'', ''x'']) '','')"

text \<open>
  Modelled from the spec: the writer of the \<^verbatim>\<open>/select/logsql/query\<close> response is not
  among the sources. The spec says that each line is the flat field map of a log line and
  that a synthetic \<^verbatim>\<open>_stream_id\<close> field is present in it.
\<close>

definition wireLine :: "(string \<rightharpoonup> 'v) \<Rightarrow> 'v \<Rightarrow> (string \<rightharpoonup> 'v)" where
  "wireLine fieldMap streamID = fieldMap(''_stream_id'' \<mapsto> streamID)"

section \<open>Ingested records and query results\<close>

subsection \<open>The records and the expected responses of the cluster test\<close>

text \<open>
  The five records that \<^verbatim>\<open>TestVlclusterIngestAndQuery\<close> writes, each as the list of the
  members of its JSON object, and the stream fields it passes.
\<close>

definition ingestRecords :: "(string \<times> string) list list" where
  "ingestRecords =
     [[(''_msg'', ''abc''), (''x'', ''y''), (''_time'', ''2025-01-01T01:00:00Z'')],
      [(''_msg'', ''def''), (''x'', ''y''), (''_time'', ''2025-01-01T01:00:00Z'')],
      [(''_msg'', ''gh''), (''x'', ''y''), (''_time'', ''2025-01-01T01:00:00Z'')],
      [(''_msg'', ''aa''), (''x'', ''z''), (''_time'', ''2025-01-01T01:00:00Z'')],
      [(''_msg'', ''aa''), (''x'', ''y''), (''_time'', ''2025-01-01T01:00:00Z'')]]"

definition testStreamFields :: "string list" where
  "testStreamFields = [''x'']"

text \<open>
  The response that the test expects from \<^verbatim>\<open>/select/logsql/facets\<close>: the field names
  with their values and hits, in the order of the JSON text.
\<close>

definition facetsWant :: "(string \<times> (string \<times> nat) list) list" where
  "facetsWant =
     [(''_msg'', [(''aa'', 2), (''abc'', 1), (''def'', 1), (''gh'', 1)]),
      (''_stream'', [(''{x='' @ [CHR 0x22] @ ''y'' @ [CHR 0x22] @ ''}'', 4),
                     (''{x='' @ [CHR 0x22] @ ''z'' @ [CHR 0x22] @ ''}'', 1)]),
      (''_stream_id'', [(''00000000000000002ad05e686f093d33c2870f9717572b26'', 4),
                        (''0000000000000000a721e815b30ad0d7ddf4ef8814d74251'', 1)]),
      (''x'', [(''y'', 4), (''z'', 1)])]"

subsection \<open>Ingestion and queries\<close>

text \<open>
  Modelled from the spec: the JSON lines decoder is not among the sources. The spec says
  that it flattens the top-level keys of a line to fields and that the time field gives the
  timestamp of the row; the default time field is \<^verbatim>\<open>_time\<close>.
\<close>

definition jsonlineFields :: "(string \<times> string) list \<Rightarrow> Field list" where
  "jsonlineFields members =
     map (\<lambda>m. \<lparr>Name = fst m, Val = snd m\<rparr>) (filter (\<lambda>m. fst m \<noteq> ''_time'') members)"

text \<open>
  Modelled from the spec: the stream of a row is not computed in the sources. The spec says
  that it is the set of the pairs of name and value drawn from the stream fields of the row;
  the set is kept as its sorted list.
\<close>

definition streamOf :: "string list \<Rightarrow> Field list \<Rightarrow> (string \<times> string) list" where
  "streamOf streamFieldNames fs =
     sort (remdups (map (\<lambda>f. (Name f, Val f)) (filter (\<lambda>f. Name f \<in> set streamFieldNames) fs)))"

text \<open>
  Modelled from the spec: the statistics functions of the query engine are not among the
  sources. The spec says that \<^verbatim>\<open>count()\<close> is the number of rows and that
  \<^verbatim>\<open>count_uniq\<close> is the number of distinct values after merging the sets of all nodes.
\<close>

definition countRows :: "Field list list \<Rightarrow> nat" where
  "countRows rows = length rows"

definition countUniqStream :: "string list \<Rightarrow> Field list list \<Rightarrow> nat" where
  "countUniqStream streamFieldNames rows = length (remdups (map (streamOf streamFieldNames) rows))"

text \<open>
  Modelled from the spec: the facets of the query engine are not among the sources. The spec
  says that for each field name the values are counted over the matching rows, after
  truncating each value to \<^verbatim>\<open>max_value_len\<close>; that the values are ordered by descending
  hits, ties by ascending value, and truncated to \<^verbatim>\<open>max_values_per_field\<close>; and that the
  field entries are ordered by field name. The merged result of the nodes is the result
  over all rows.
\<close>

definition valueHits :: "nat \<Rightarrow> Field list list \<Rightarrow> string \<Rightarrow> (string \<times> nat) list" where
  "valueHits maxValueLen rows fieldName =
     (let vs = map (\<lambda>f. take maxValueLen (Val f)) (filter (\<lambda>f. Name f = fieldName) (concat rows))
      in map (\<lambda>v. (v, count_list vs v)) (remdups vs))"

definition facetValues :: "nat \<Rightarrow> nat \<Rightarrow> Field list list \<Rightarrow> string \<Rightarrow> (string \<times> nat) list" where
  "facetValues maxValuesPerField maxValueLen rows fieldName =
     take maxValuesPerField
       (sort_key (\<lambda>vh. (- int (snd vh), fst vh)) (valueHits maxValueLen rows fieldName))"

definition facets :: "nat \<Rightarrow> nat \<Rightarrow> Field list list \<Rightarrow> (string \<times> (string \<times> nat) list) list" where
  "facets maxValuesPerField maxValueLen rows =
     map (\<lambda>n. (n, facetValues maxValuesPerField maxValueLen rows n))
       (sort (remdups (map Name (concat rows))))"

text \<open>
  Modelled from the spec: the \<^verbatim>\<open>facets\<close> pipe is not among the sources. Its result
  holds one line for each value of each field, with the field name, the value and the hits.
\<close>

record FacetEntry =
  field_name :: string
  field_value :: string
  hits :: nat

definition facetsPipe :: "nat \<Rightarrow> nat \<Rightarrow> Field list list \<Rightarrow> FacetEntry list" where
  "facetsPipe maxValuesPerField maxValueLen rows =
     concat (map (\<lambda>fv. map (\<lambda>vh. \<lparr>field_name = fst fv, field_value = fst vh, hits = snd vh\<rparr>) (snd fv))
                 (facets maxValuesPerField maxValueLen rows))"

text \<open>The order of the values of one field in a facets response.\<close>

definition facetValueOrder :: "string \<times> nat \<Rightarrow> string \<times> nat \<Rightarrow> bool" where
  "facetValueOrder a b = (snd b < snd a \<or> (snd a = snd b \<and> fst a \<le> fst b))"

text \<open>A response body of two lines, the first with a \<^verbatim>\<open>_stream_id\<close> key.\<close>

definition wireBody0 :: string where
  "wireBody0 = ''_msg,_stream_id,x'' @ [CHR 0x0A] @ ''x'' @ [CHR 0x0A]"

text \<open>The rows of the five records of the cluster test.\<close>

definition rows5 :: "Field list list" where
  "rows5 = map jsonlineFields ingestRecords"

text \<open>A harness whose applications listen on an address made from their name.\<close>

definition H0 :: harness where
  "H0 = \<lparr>startProcess = (\<lambda>inst bin flags. Some (\<lambda>re. case re of
            httpListenAddrRE \<Rightarrow> inst @ '':80'' | logsStorageDataPathRE \<Rightarrow> ''/tmp/'' @ inst)),
          newStorageDataPath = (\<lambda>inst. ''/tmp/'' @ inst @ ''-1''),
          rangeOrder = (\<lambda>m. m)\<rparr>"

section \<open>Properties of the OpenTelemetry handler\<close>

text \<open>
  C4: a request to \<^verbatim>\<open>/insert/opentelemetry/v1/logs\<close> whose Content-Type is a JSON
  content type is answered with the error that asks for protobuf encoding, and the handler
  does nothing else: no event, no row, no counter. Every other content type is handed to
  the protobuf handler.
\<close>

theorem C4_json_rejected:
  "(IsJSONContentType E (contentType r) \<longrightarrow>
      RequestHandler E ''/insert/opentelemetry/v1/logs'' r w =
        (Return (True, Some ''json encoding isn't supported for opentelemetry format. Use protobuf encoding''), w)
      \<and> addedRows (snd (RequestHandler E ''/insert/opentelemetry/v1/logs'' r w)) = addedRows w)
   \<and> (\<not> IsJSONContentType E (contentType r) \<longrightarrow>
      snd (RequestHandler E ''/insert/opentelemetry/v1/logs'' r w) = snd (handleProtobuf E r w))"
  by (auto simp: RequestHandler_def split: prod.splits res.splits)

theorem C4_json_rejected_witness:
  "IsJSONContentType env0 (contentType reqJSON)
   \<and> RequestHandler env0 ''/insert/opentelemetry/v1/logs'' reqJSON w0 =
        (Return (True, Some ''json encoding isn't supported for opentelemetry format. Use protobuf encoding''), w0)
   \<and> \<not> IsJSONContentType env0 (contentType req0)
   \<and> snd (RequestHandler env0 ''/insert/opentelemetry/v1/logs'' req0 w0) = snd (handleProtobuf env0 req0 w0)"
  using C4_json_rejected [of env0 reqJSON w0] C4_json_rejected [of env0 req0 w0]
  by (simp add: env0_def reqJSON_def req0_def)

subsection \<open>The callback and the decoder loop\<close>

lemma RenameField_length: "length (RenameField fs ns n) = length fs"
  by (simp add: RenameField_def)

lemma RenameField_unchanged:
  "\<forall>f\<in>set fs. Name f \<notin> set ns \<Longrightarrow> RenameField fs ns n = fs"
  by (induction fs) (auto simp: RenameField_def)

text \<open>The row that the callback hands to AddRow.\<close>

lemma pushLogs_ok:
  "n \<le> length fs \<Longrightarrow>
   pushLogs mf ud (ts, fs, n) w =
     (Return (), emit (EvAddRow \<lparr>timestamp = ts,
        allFields = take n fs @ RenameField (drop n fs) mf ''_msg'',
        streamFields = (if ud then Some (take n fs) else None)\<rparr>) w)"
  by (simp add: pushLogs_def Let_def)


lemma pushAll_ok:
  "\<forall>r\<in>set rows. (case r of (ts, fs, n) \<Rightarrow> n \<le> length fs) \<Longrightarrow>
   pushAll (pushLogs mf ud) rows w =
     (Return (), w\<lparr>events := events w @ map (\<lambda>(ts, fs, n). EvAddRow \<lparr>timestamp = ts,
        allFields = take n fs @ RenameField (drop n fs) mf ''_msg'',
        streamFields = (if ud then Some (take n fs) else None)\<rparr>) rows\<rparr>)"
proof (induction rows arbitrary: w)
  case Nil
  show ?case by simp
next
  case (Cons r rows)
  obtain ts fs n where r: "r = (ts, fs, n)" by (cases r) auto
  with Cons.prems have n: "n \<le> length fs" by simp
  from Cons.prems have rest: "\<forall>r\<in>set rows. (case r of (ts, fs, n) \<Rightarrow> n \<le> length fs)" by simp
  show ?case using Cons.IH [OF rest] by (simp add: r pushLogs_ok [OF n] emit_def)
qed

text \<open>
  C1 (as amended): \<^verbatim>\<open>useDefaultStreamFields\<close> is true exactly when the caller configured
  no stream fields. For every decoded row of a request that is accepted, the row is handed
  to \<^verbatim>\<open>AddRow\<close> with all its fields; when the caller configured no stream fields the
  leading \<^verbatim>\<open>streamFieldsLen\<close> fields are passed as the stream fields of the row, and when
  the caller configured stream fields no stream fields are passed (nil), so that the
  leading fields are ordinary fields of the row.
\<close>

theorem C1_stream_fields:
  assumes "GetCommonParams E r = Inr cp" and "CanWriteData E = None"
    and "ReadUncompressedData E (body r) (contentEncoding r) = Inr data"
    and "parseLogsData E data = Inr rows"
    and "\<forall>x\<in>set rows. (case x of (ts, fs, n) \<Rightarrow> n \<le> length fs)"
  shows "fst (handleProtobuf E r w) = Return None
    \<and> addedRows (snd (handleProtobuf E r w)) = addedRows w @
        map (\<lambda>(ts, fs, n). \<lparr>timestamp = ts,
               allFields = take n fs @ RenameField (drop n fs) (MsgFields cp) ''_msg'',
               streamFields = (if StreamFields cp = [] then Some (take n fs) else None)\<rparr>) rows"
  using assms
  by (simp add: handleProtobuf_def pushProtobufRequest_def decodeLogsData_def Let_def
      pushAll_ok emit_def addedRows_def comp_def case_prod_unfold)

theorem C1_stream_fields_witness:
  "addedRows (snd (handleProtobuf env0 req0 w0)) =
     [\<lparr>timestamp = 1, allFields = [fld ''service'' ''a'', fld ''_msg'' ''hello''],
        streamFields = Some [fld ''service'' ''a'']\<rparr>,
      \<lparr>timestamp = 2, allFields = [fld ''service'' ''b'', fld ''level'' ''info''],
        streamFields = Some [fld ''service'' ''b'']\<rparr>]
   \<and> addedRows (snd (handleProtobuf envExplicit req0 w0)) =
     [\<lparr>timestamp = 1, allFields = [fld ''service'' ''a'', fld ''_msg'' ''hello''],
        streamFields = None\<rparr>,
      \<lparr>timestamp = 2, allFields = [fld ''service'' ''b'', fld ''level'' ''info''],
        streamFields = None\<rparr>]"
  using C1_stream_fields [of env0 req0 "\<lparr>StreamFields = [], MsgFields = [''body'']\<rparr>" "''payload''" rows0 w0]
    C1_stream_fields [of envExplicit req0 "\<lparr>StreamFields = [''host''], MsgFields = [''body'']\<rparr>" "''payload''" rows0 w0]
  by (simp add: env0_def envExplicit_def req0_def rows0_def w0_def addedRows_def RenameField_def fld_def)

text \<open>
  The claim as written ties a false \<^verbatim>\<open>useDefaultStreamFields\<close> to a caller without
  stream-field configuration. For such a caller the leading fields are passed as stream fields.
\<close>

theorem C1_no_config_counterexample:
  "GetCommonParams env0 req0 = Inr \<lparr>StreamFields = [], MsgFields = [''body'']\<rparr>
   \<and> map streamFields (addedRows (snd (handleProtobuf env0 req0 w0))) =
        [Some [fld ''service'' ''a''], Some [fld ''service'' ''b'']]"
  by (simp add: handleProtobuf_def pushProtobufRequest_def decodeLogsData_def pushLogs_def Let_def
      emit_def addedRows_def env0_def req0_def rows0_def w0_def RenameField_def fld_def)

text \<open>
  C2: when the payload of a request does not decode, the request is answered with the decode
  error, which gives the size of the payload, and no row of the request is handed to
  \<^verbatim>\<open>AddRow\<close>; the error counter is incremented.
\<close>

theorem C2_decode_failure:
  assumes "GetCommonParams E r = Inr cp" and "CanWriteData E = None"
    and "ReadUncompressedData E (body r) (contentEncoding r) = Inr data"
    and "parseLogsData E data = Inl e"
  shows "fst (handleProtobuf E r w) =
           Return (Some (''cannot read OpenTelemetry protocol data: ''
                         @ ''cannot decode LogsData request from '' @ itoa (length data) @ '' bytes: '' @ e))
    \<and> addedRows (snd (handleProtobuf E r w)) = addedRows w
    \<and> errorsTotal (snd (handleProtobuf E r w)) = errorsTotal w + 1"
  using assms
  by (simp add: handleProtobuf_def pushProtobufRequest_def decodeLogsData_def Let_def
      emit_def addedRows_def)

theorem C2_decode_failure_witness:
  "fst (handleProtobuf env0 reqCorrupt w0) =
     Return (Some ''cannot read OpenTelemetry protocol data: cannot decode LogsData request from 7 bytes: corrupt record'')
   \<and> addedRows (snd (handleProtobuf env0 reqCorrupt w0)) = []"
proof -
  have seven: "itoa (length ''garbage'') = ''7''" by code_simp
  show ?thesis
    using C2_decode_failure [of env0 reqCorrupt "\<lparr>StreamFields = [], MsgFields = [''body'']\<rparr>"
        "''garbage''" "''corrupt record''" w0, unfolded seven]
    by (simp add: env0_def reqCorrupt_def w0_def addedRows_def)
qed

text \<open>
  C6 (as amended): the callback renames within the fields at the positions
  \<^verbatim>\<open>streamFieldsLen\<close> and later only; the leading fields reach \<^verbatim>\<open>AddRow\<close> as
  decoded, and the row keeps its number of fields. When no field of the renamed part
  matches, the row is handed on as decoded: the callback adds no \<^verbatim>\<open>_msg\<close> field.
\<close>

theorem C6_rename_non_stream:
  assumes "n \<le> length fs"
  shows "\<exists>ar. pushLogs mf ud (ts, fs, n) w = (Return (), emit (EvAddRow ar) w)
     \<and> take n (allFields ar) = take n fs
     \<and> drop n (allFields ar) = RenameField (drop n fs) mf ''_msg''
     \<and> length (allFields ar) = length fs
     \<and> ((\<forall>f\<in>set (drop n fs). Name f \<notin> set mf) \<longrightarrow> allFields ar = fs)"
proof -
  let ?ar = "\<lparr>timestamp = ts, allFields = take n fs @ RenameField (drop n fs) mf ''_msg'',
        streamFields = (if ud then Some (take n fs) else None)\<rparr>"
  have "pushLogs mf ud (ts, fs, n) w = (Return (), emit (EvAddRow ?ar) w)"
    by (rule pushLogs_ok [OF assms])
  moreover have "take n (allFields ?ar) = take n fs" using assms by simp
  moreover have "drop n (allFields ?ar) = RenameField (drop n fs) mf ''_msg''" using assms by simp
  moreover have "length (allFields ?ar) = length fs" using assms by (simp add: RenameField_length)
  moreover have "(\<forall>f\<in>set (drop n fs). Name f \<notin> set mf) \<longrightarrow> allFields ?ar = fs"
    by (simp add: RenameField_unchanged)
  ultimately show ?thesis by blast
qed

theorem C6_rename_non_stream_witness:
  "\<exists>ar. pushLogs [''service''] True (1, [fld ''service'' ''a'', fld ''service'' ''b''], 1) w0
          = (Return (), emit (EvAddRow ar) w0)
     \<and> take 1 (allFields ar) = [fld ''service'' ''a'']
     \<and> drop 1 (allFields ar) = [fld ''_msg'' ''b'']
     \<and> length (allFields ar) = length [fld ''service'' ''a'', fld ''service'' ''b'']"
  using C6_rename_non_stream [of 1 "[fld ''service'' ''a'', fld ''service'' ''b'']" "[''service'']" True 1 w0]
  by (simp add: fld_def RenameField_def)

text \<open>
  A row without a matching field reaches \<^verbatim>\<open>AddRow\<close> without a field named
  \<^verbatim>\<open>_msg\<close>.
\<close>

theorem C6_no_match_counterexample:
  "addedRows (snd (pushLogs [''body''] True (2, [fld ''service'' ''b'', fld ''level'' ''info''], 1) w0)) =
     [\<lparr>timestamp = 2, allFields = [fld ''service'' ''b'', fld ''level'' ''info''],
       streamFields = Some [fld ''service'' ''b'']\<rparr>]
   \<and> ''_msg'' \<notin> set (map Name [fld ''service'' ''b'', fld ''level'' ''info''])"
  by (simp add: pushLogs_def Let_def emit_def addedRows_def w0_def fld_def RenameField_def)





section \<open>Properties of the test harness\<close>

subsection \<open>Default flags\<close>

lemma IndexByte_None: "c \<notin> set f \<Longrightarrow> IndexByte f c = None"
  by (induction f) auto

lemma IndexByte_Some: "c \<in> set f \<Longrightarrow> \<exists>n. IndexByte f c = Some n \<and> take n f = takeWhile (\<lambda>x. x \<noteq> c) f"
  by (induction f) auto

lemma collectFlagNames_ok:
  "\<forall>f\<in>set flags. HasPrefix f ''-'' \<and> CHR ''='' \<in> set f \<Longrightarrow>
   collectFlagNames flags acc = Return (acc @ map flagName flags)"
proof (induction flags arbitrary: acc)
  case Nil
  show ?case by simp
next
  case (Cons f flags)
  from Cons.prems have "CHR ''='' \<in> set f" by simp
  then obtain n where n: "IndexByte f (CHR ''='') = Some n" "take n f = flagName f"
    using IndexByte_Some [of "CHR ''=''" f] by (auto simp: flagName_def)
  from Cons.prems have "HasPrefix f ''-''" by simp
  moreover from Cons.prems have "\<forall>f\<in>set flags. HasPrefix f ''-'' \<and> CHR ''='' \<in> set f" by simp
  ultimately show ?case using n Cons.IH [of "acc @ [flagName f]"] by simp
qed

lemma collectFlagNames_panic:
  "\<exists>f\<in>set flags. \<not> HasPrefix f ''-'' \<or> CHR ''='' \<notin> set f \<Longrightarrow>
   collectFlagNames flags acc = Panic"
proof (induction flags arbitrary: acc)
  case Nil
  then show ?case by simp
next
  case (Cons f flags)
  show ?case
  proof (cases "\<not> HasPrefix f ''-'' \<or> CHR ''='' \<notin> set f")
    case True
    then show ?thesis by (auto simp: IndexByte_None)
  next
    case False
    then obtain n where n: "IndexByte f (CHR ''='') = Some n"
      using IndexByte_Some [of "CHR ''=''" f] by auto
    from False Cons.prems have "\<exists>f\<in>set flags. \<not> HasPrefix f ''-'' \<or> CHR ''='' \<notin> set f" by auto
    then show ?thesis using False n Cons.IH by simp
  qed
qed

lemma addDefaultFlags_ok:
  "\<forall>d\<in>set ds. HasPrefix (fst d) ''-'' \<Longrightarrow>
   addDefaultFlags ds names flags =
     Return (flags @ map (\<lambda>d. fst d @ ''='' @ snd d) (filter (\<lambda>d. fst d \<notin> set names) ds))"
proof (induction ds arbitrary: flags)
  case Nil
  show ?case by simp
next
  case (Cons d ds)
  obtain name v where d: "d = (name, v)" by (cases d) auto
  from Cons.prems have rest: "\<forall>d\<in>set ds. HasPrefix (fst d) ''-''" by simp
  from Cons.prems d have "HasPrefix name ''-''" by simp
  then show ?case using d Cons.IH [OF rest] by simp
qed

lemma addDefaultFlags_panic:
  "\<exists>d\<in>set ds. \<not> HasPrefix (fst d) ''-'' \<Longrightarrow> addDefaultFlags ds names flags = Panic"
proof (induction ds arbitrary: flags)
  case Nil
  then show ?case by simp
next
  case (Cons d ds)
  obtain name v where d: "d = (name, v)" by (cases d) auto
  show ?case
  proof (cases "HasPrefix name ''-''")
    case False
    then show ?thesis using d by simp
  next
    case True
    with Cons.prems d have "\<exists>d\<in>set ds. \<not> HasPrefix (fst d) ''-''" by auto
    then show ?thesis using True d Cons.IH by simp
  qed
qed

lemma setDefaultFlags_default_panic:
  assumes "\<exists>d\<in>set defaultFlags. \<not> HasPrefix (fst d) ''-''"
  shows "setDefaultFlags flags defaultFlags = Panic"
proof (cases "\<forall>f\<in>set flags. HasPrefix f ''-'' \<and> CHR ''='' \<in> set f")
  case True
  then show ?thesis
    by (simp add: setDefaultFlags_def collectFlagNames_ok addDefaultFlags_panic [OF assms])
next
  case False
  then have "\<exists>f\<in>set flags. \<not> HasPrefix f ''-'' \<or> CHR ''='' \<notin> set f" by auto
  then show ?thesis by (simp add: setDefaultFlags_def collectFlagNames_panic)
qed

text \<open>
  C10 (as amended): when every flag starts with \<^verbatim>\<open>-\<close> and contains \<^verbatim>\<open>=\<close>, and
  every default flag name starts with \<^verbatim>\<open>-\<close>, \<^verbatim>\<open>setDefaultFlags\<close> returns the flags
  unchanged and in order, followed by one entry \<^verbatim>\<open>name=value\<close> for each default flag
  whose name is not the name of a given flag, in the order in which the map is visited. A
  flag without the prefix or without the separator makes it panic, and so does a default
  flag whose name lacks the prefix, whatever the flags are.
\<close>

theorem C10_setDefaultFlags:
  "((\<forall>f\<in>set flags. HasPrefix f ''-'' \<and> CHR ''='' \<in> set f) \<and> (\<forall>d\<in>set defaultFlags. HasPrefix (fst d) ''-'') \<longrightarrow>
      setDefaultFlags flags defaultFlags =
        Return (flags @ map (\<lambda>d. fst d @ ''='' @ snd d)
                          (filter (\<lambda>d. fst d \<notin> set (map flagName flags)) defaultFlags)))
   \<and> ((\<exists>f\<in>set flags. \<not> HasPrefix f ''-'' \<or> CHR ''='' \<notin> set f) \<longrightarrow>
      setDefaultFlags flags defaultFlags = Panic)
   \<and> ((\<exists>d\<in>set defaultFlags. \<not> HasPrefix (fst d) ''-'') \<longrightarrow>
      setDefaultFlags flags defaultFlags = Panic)"
proof (intro conjI impI)
  assume "(\<forall>f\<in>set flags. HasPrefix f ''-'' \<and> CHR ''='' \<in> set f)
          \<and> (\<forall>d\<in>set defaultFlags. HasPrefix (fst d) ''-'')"
  then show "setDefaultFlags flags defaultFlags =
        Return (flags @ map (\<lambda>d. fst d @ ''='' @ snd d)
                          (filter (\<lambda>d. fst d \<notin> set (map flagName flags)) defaultFlags))"
    by (simp add: setDefaultFlags_def collectFlagNames_ok addDefaultFlags_ok del: set_map)
next
  assume "\<exists>f\<in>set flags. \<not> HasPrefix f ''-'' \<or> CHR ''='' \<notin> set f"
  then show "setDefaultFlags flags defaultFlags = Panic"
    by (simp add: setDefaultFlags_def collectFlagNames_panic)
next
  assume "\<exists>d\<in>set defaultFlags. \<not> HasPrefix (fst d) ''-''"
  then show "setDefaultFlags flags defaultFlags = Panic"
    by (rule setDefaultFlags_default_panic)
qed

theorem C10_setDefaultFlags_witness:
  "setDefaultFlags [''-retentionPeriod=1d'', ''-x=a=b'']
       [(''-storageDataPath'', ''/tmp/d''), (''-retentionPeriod'', ''100y'')]
     = Return [''-retentionPeriod=1d'', ''-x=a=b'', ''-storageDataPath=/tmp/d'']
   \<and> setDefaultFlags [''-retentionPeriod=1d'', ''verbose''] [(''-storageDataPath'', ''/tmp/d'')] = Panic
   \<and> setDefaultFlags [''retentionPeriod=1d''] [] = Panic
   \<and> setDefaultFlags [''-retentionPeriod=1d'']
         [(''-storageDataPath'', ''/tmp/d''), (''httpListenAddr'', ''127.0.0.1:0'')] = Panic"
  using C10_setDefaultFlags [of "[''-retentionPeriod=1d'', ''-x=a=b'']"
          "[(''-storageDataPath'', ''/tmp/d''), (''-retentionPeriod'', ''100y'')]"]
    C10_setDefaultFlags [of "[''-retentionPeriod=1d'', ''verbose'']" "[(''-storageDataPath'', ''/tmp/d'')]"]
    C10_setDefaultFlags [of "[''retentionPeriod=1d'']" "[]"]
    C10_setDefaultFlags [of "[''-retentionPeriod=1d'']"
          "[(''-storageDataPath'', ''/tmp/d''), (''httpListenAddr'', ''127.0.0.1:0'')]"]
  by (simp add: HasPrefix_def flagName_def)

text \<open>
  With well-formed flags, a default flag whose name lacks the prefix makes the function
  panic instead of returning the extended list.
\<close>

theorem C10_default_name_counterexample:
  "HasPrefix ''-a=1'' ''-'' \<and> CHR ''='' \<in> set ''-a=1''
   \<and> setDefaultFlags [''-a=1''] [(''retentionPeriod'', ''100y'')] = Panic"
  by (simp add: setDefaultFlags_def HasPrefix_def)


subsection \<open>Starting a cluster\<close>

lemma bindR_Return:
  "bindR m f = (Return y, s') \<Longrightarrow> \<exists>x s. m = (Return x, s) \<and> f x s = (Return y, s')"
  by (cases m rule: prod.exhaust, rename_tac a b, case_tac a) (auto simp: bindR_def)

lemma setDefaultFlags_node:
  "setDefaultFlags [''-storageNode='' @ addrs, CHR ''-'' # x @ ''.disable=true''] [(''-httpListenAddr'', ''127.0.0.1:0'')]
     = Return [''-storageNode='' @ addrs, CHR ''-'' # x @ ''.disable=true'', ''-httpListenAddr=127.0.0.1:0'']"
  if "x = ''select'' \<or> x = ''insert''"
proof -
  let ?flags = "[''-storageNode='' @ addrs, CHR ''-'' # x @ ''.disable=true'']"
  have wf: "\<forall>f\<in>set ?flags. HasPrefix f ''-'' \<and> CHR ''='' \<in> set f"
    by (simp add: HasPrefix_def)
  have names: "map flagName ?flags = [''-storageNode'', CHR ''-'' # x @ ''.disable'']"
    using that by (auto simp: flagName_def)
  show ?thesis
    using that
    by (auto simp: setDefaultFlags_def collectFlagNames_ok [OF wf] names HasPrefix_def)
qed

lemma mustStartVlnode_Return:
  assumes "mustStartVlnode H inst flags extra procs = (Return (n, ex), procs')"
  shows "setDefaultFlags flags [(''-httpListenAddr'', ''127.0.0.1:0'')] = Return (appFlags (nodeApp n))
     \<and> appInstance (nodeApp n) = inst \<and> procs' = procs @ [nodeApp n]"
proof -
  from assms obtain flags' where f: "setDefaultFlags flags [(''-httpListenAddr'', ''127.0.0.1:0'')] = Return flags'"
    by (cases "setDefaultFlags flags [(''-httpListenAddr'', ''127.0.0.1:0'')]")
       (auto simp: mustStartVlnode_def bindR_def)
  from assms f obtain out where o: "startProcess H inst ''../../bin/victoria-logs'' flags' = Some out"
    by (cases "startProcess H inst ''../../bin/victoria-logs'' flags'")
       (auto simp: mustStartVlnode_def bindR_def mustStartApp_def)
  from assms f o show ?thesis
    by (auto simp: mustStartVlnode_def bindR_def mustStartApp_def Let_def)
qed

lemma MustStartVlsingle_Return:
  assumes "MustStartVlsingle H inst flags procs = (Return s, procs')"
  shows "appInstance (nodeApp (node s)) = inst \<and> procs' = procs @ [nodeApp (node s)]"
proof -
  let ?d = "rangeOrder H [(''-storageDataPath'', newStorageDataPath H inst), (''-retentionPeriod'', ''100y'')]"
  from assms obtain flags' where f: "setDefaultFlags flags ?d = Return flags'"
    by (cases "setDefaultFlags flags ?d") (auto simp: MustStartVlsingle_def bindR_def Let_def)
  from assms f obtain n ex p where
    m: "mustStartVlnode H inst flags' [logsStorageDataPathRE] procs = (Return (n, ex), p)"
    and rest: "(case ex of [] \<Rightarrow> (Panic, p) | e0 # r \<Rightarrow> (Return \<lparr>node = n, storageDataPath = e0\<rparr>, p)) = (Return s, procs')"
    by (auto simp: MustStartVlsingle_def Let_def bindR_def split: prod.splits res.splits)
  from rest have "node s = n \<and> p = procs'" by (cases ex) auto
  with mustStartVlnode_Return [OF m] show ?thesis by simp
qed

lemma startStorageNodes_Return:
  "startStorageNodes H inst sf is nodes procs = (Return ns, procs') \<Longrightarrow>
   \<exists>new. ns = nodes @ new \<and> length new = length is
      \<and> map (\<lambda>s. appInstance (nodeApp (node s))) new = map (\<lambda>i. inst @ ''-storage-'' @ itoa i) is
      \<and> procs' = procs @ map (\<lambda>s. nodeApp (node s)) new"
proof (induction "is" arbitrary: nodes procs)
  case Nil
  then show ?case by simp
next
  case (Cons i "is")
  from Cons.prems obtain s p where
    s: "MustStartVlsingle H (inst @ ''-storage-'' @ itoa i) sf procs = (Return s, p)"
    and r: "startStorageNodes H inst sf is (nodes @ [s]) p = (Return ns, procs')"
    by (auto dest!: bindR_Return)
  from Cons.IH [OF r] obtain new where new: "ns = (nodes @ [s]) @ new" "length new = length is"
    "map (\<lambda>s. appInstance (nodeApp (node s))) new = map (\<lambda>i. inst @ ''-storage-'' @ itoa i) is"
    "procs' = p @ map (\<lambda>s. nodeApp (node s)) new" by blast
  with MustStartVlsingle_Return [OF s] show ?case
    by (intro exI [of _ "s # new"]) simp
qed

text \<open>
  C8: a cluster that starts has exactly three storage nodes, named after the instance with
  the suffixes \<^verbatim>\<open>-storage-0\<close> to \<^verbatim>\<open>-storage-2\<close>, one insert node started with
  \<^verbatim>\<open>-select.disable=true\<close> and one select node started with
  \<^verbatim>\<open>-insert.disable=true\<close>; both get the addresses of the three storage nodes, joined
  by commas, in \<^verbatim>\<open>-storageNode\<close>, and the default listen address. These five
  applications are the ones that were started.
\<close>

theorem C8_cluster_topology:
  assumes "MustStartVlcluster H inst storageFlags procs = (Return c, procs')"
  shows "length (storageNodes c) = 3
    \<and> map (\<lambda>s. appInstance (nodeApp (node s))) (storageNodes c)
        = [inst @ ''-storage-0'', inst @ ''-storage-1'', inst @ ''-storage-2'']
    \<and> appInstance (nodeApp (insertNode c)) = inst @ ''-insert''
    \<and> appFlags (nodeApp (insertNode c)) =
        [''-storageNode='' @ Join (map (\<lambda>s. httpListenAddr (node s)) (storageNodes c)) '','',
         ''-select.disable=true'', ''-httpListenAddr=127.0.0.1:0'']
    \<and> appInstance (nodeApp (selectNode c)) = inst @ ''-select''
    \<and> appFlags (nodeApp (selectNode c)) =
        [''-storageNode='' @ Join (map (\<lambda>s. httpListenAddr (node s)) (storageNodes c)) '','',
         ''-insert.disable=true'', ''-httpListenAddr=127.0.0.1:0'']
    \<and> procs' = procs @ map (\<lambda>s. nodeApp (node s)) (storageNodes c)
                 @ [nodeApp (insertNode c), nodeApp (selectNode c)]"
proof -
  let ?snf = "\<lambda>nodes. ''-storageNode='' @ Join (map (\<lambda>s. httpListenAddr (node s)) nodes) '',''"
  from assms obtain nodes p1 where
    st: "startStorageNodes H inst storageFlags [0, 1, 2] [] procs = (Return nodes, p1)"
    and r1: "bindR (mustStartVlnode H (inst @ ''-insert'') [?snf nodes, ''-select.disable=true''] [] p1)
              (\<lambda>(insertN, x) procs2.
                bindR (mustStartVlnode H (inst @ ''-select'') [?snf nodes, ''-insert.disable=true''] [] procs2)
                  (\<lambda>(selectN, y) procs3.
                    (Return \<lparr>storageNodes = nodes, insertNode = insertN, selectNode = selectN\<rparr>, procs3)))
            = (Return c, procs')"
    using bindR_Return [OF assms [unfolded MustStartVlcluster_def]] unfolding Let_def by blast
  from bindR_Return [OF r1] obtain insN x p2 where
    ins: "mustStartVlnode H (inst @ ''-insert'') [?snf nodes, ''-select.disable=true''] [] p1 = (Return (insN, x), p2)"
    and r2: "bindR (mustStartVlnode H (inst @ ''-select'') [?snf nodes, ''-insert.disable=true''] [] p2)
                  (\<lambda>(selectN, y) procs3.
                    (Return \<lparr>storageNodes = nodes, insertNode = insN, selectNode = selectN\<rparr>, procs3))
            = (Return c, procs')"
    by auto
  from bindR_Return [OF r2] obtain selN y where
    sel: "mustStartVlnode H (inst @ ''-select'') [?snf nodes, ''-insert.disable=true''] [] p2 = (Return (selN, y), procs')"
    and c: "c = \<lparr>storageNodes = nodes, insertNode = insN, selectNode = selN\<rparr>"
    by auto
  have zero: "itoa 0 = ''0''" and one: "itoa (Suc 0) = ''1''" and two: "itoa 2 = ''2''" by code_simp+
  from startStorageNodes_Return [OF st] have
    n: "length nodes = 3"
      "map (\<lambda>s. appInstance (nodeApp (node s))) nodes
        = [inst @ ''-storage-0'', inst @ ''-storage-1'', inst @ ''-storage-2'']"
      "p1 = procs @ map (\<lambda>s. nodeApp (node s)) nodes"
    by (auto simp: zero one two)
  have fi: "appFlags (nodeApp insN) = [?snf nodes, ''-select.disable=true'', ''-httpListenAddr=127.0.0.1:0'']"
    using mustStartVlnode_Return [OF ins] setDefaultFlags_node [of "''select''" "Join (map (\<lambda>s. httpListenAddr (node s)) nodes) '',''"]
    by simp
  have fs: "appFlags (nodeApp selN) = [?snf nodes, ''-insert.disable=true'', ''-httpListenAddr=127.0.0.1:0'']"
    using mustStartVlnode_Return [OF sel] setDefaultFlags_node [of "''insert''" "Join (map (\<lambda>s. httpListenAddr (node s)) nodes) '',''"]
    by simp
  show ?thesis
    using n fi fs mustStartVlnode_Return [OF ins] mustStartVlnode_Return [OF sel] c by simp
qed

theorem C8_cluster_topology_witness:
  "map appInstance (snd (MustStartVlcluster H0 ''t'' [''-retentionPeriod=1d''] [])) =
     [''t-storage-0'', ''t-storage-1'', ''t-storage-2'', ''t-insert'', ''t-select'']
   \<and> map appFlags (drop 3 (snd (MustStartVlcluster H0 ''t'' [''-retentionPeriod=1d''] []))) =
     [[''-storageNode=t-storage-0:80,t-storage-1:80,t-storage-2:80'', ''-select.disable=true'',
       ''-httpListenAddr=127.0.0.1:0''],
      [''-storageNode=t-storage-0:80,t-storage-1:80,t-storage-2:80'', ''-insert.disable=true'',
       ''-httpListenAddr=127.0.0.1:0'']]"
proof -
  let ?r = "MustStartVlcluster H0 ''t'' [''-retentionPeriod=1d''] []"
  have "case ?r of (Return c, p) \<Rightarrow> True | _ \<Rightarrow> False" by code_simp
  then obtain c p where cp: "?r = (Return c, p)"
    by (auto split: prod.splits res.splits)
  have addrs: "map (\<lambda>s. httpListenAddr (node s)) (storageNodes (case fst ?r of Return c \<Rightarrow> c))
                 = [''t-storage-0:80'', ''t-storage-1:80'', ''t-storage-2:80'']"
    by code_simp
  from C8_cluster_topology [OF cp] addrs show ?thesis
    by (simp add: cp comp_def)
qed


section \<open>Properties of the parsed query response\<close>

lemma IndexByte_split:
  "IndexByte bs c = Some i \<Longrightarrow> i < length bs \<and> bs ! i = c"
  by (induction bs arbitrary: i) (auto split: if_splits)

lemma readLogLines_Return:
  "readLogLines um ms bs acc = Return out \<Longrightarrow>
   \<exists>ls new. bs = concat ls \<and> out = acc @ new
     \<and> (\<forall>l\<in>set ls. l \<noteq> [] \<and> last l = CHR 0x0A)
     \<and> list_all2 (\<lambda>l n. \<exists>lv. um l = Some lv \<and> ms (delete lv ''_stream_id'') = Some n) ls new"
proof (induction um ms bs acc rule: readLogLines.induct)
  case (1 um ms bs acc)
  show ?case
  proof (cases "IndexByte bs (CHR 0x0A)")
    case None
    with "1.prems" have "bs = []" "out = acc"
      by (auto simp: readLogLines.simps [of um ms bs acc] split: if_splits)
    then show ?thesis by (intro exI [of _ "[]"]) simp
  next
    case (Some i)
    let ?l = "take (Suc i) bs"
    from Some "1.prems" obtain lv where lv: "um ?l = Some lv"
      by (cases "um ?l") (auto simp: readLogLines.simps [of um ms bs acc] Let_def)
    from Some lv "1.prems" obtain n where n: "ms (delete lv ''_stream_id'') = Some n"
      by (cases "ms (delete lv ''_stream_id'')") (auto simp: readLogLines.simps [of um ms bs acc] Let_def)
    from Some lv n "1.prems" have rec: "readLogLines um ms (drop (Suc i) bs) (acc @ [n]) = Return out"
      by (simp add: readLogLines.simps [of um ms bs acc] Let_def)
    from "1.IH" [OF Some refl lv n rec] obtain ls new where
      IH: "drop (Suc i) bs = concat ls" "out = (acc @ [n]) @ new"
        "\<forall>l\<in>set ls. l \<noteq> [] \<and> last l = CHR 0x0A"
        "list_all2 (\<lambda>l n. \<exists>lv. um l = Some lv \<and> ms (delete lv ''_stream_id'') = Some n) ls new"
      by blast
    from IndexByte_split [OF Some] have i: "i < length bs" "bs ! i = CHR 0x0A" by auto
    then have l: "?l \<noteq> []" "last ?l = CHR 0x0A"
      by (auto simp: take_Suc_conv_app_nth)
    have "bs = concat (?l # ls)"
      using IH(1) append_take_drop_id [of "Suc i" bs] by (simp del: append_take_drop_id)
    then have "bs = concat (?l # ls) \<and> out = acc @ (n # new)
        \<and> (\<forall>l\<in>set (?l # ls). l \<noteq> [] \<and> last l = CHR 0x0A)
        \<and> list_all2 (\<lambda>l n. \<exists>lv. um l = Some lv \<and> ms (delete lv ''_stream_id'') = Some n)
              (?l # ls) (n # new)"
      using IH l lv n by auto
    then show ?thesis by blast
  qed
qed

text \<open>
  C9: an empty body parses to a response without log lines. When a body parses, it is a
  sequence of lines that end in a line feed, and the parsed response holds, for each line in
  order, the map of that line without the key \<^verbatim>\<open>_stream_id\<close>, written out again:
  deleting removes exactly that key and keeps every other key with its value. A line of
  the wire response carries the key, and parsing it leaves the fields of the log line.
\<close>

theorem C9_parsed_response:
  "NewLogsQLQueryResponse um ms [] = Return \<lparr>LogLines = []\<rparr>
   \<and> (\<forall>res. NewLogsQLQueryResponse um ms s = Return res \<longrightarrow>
        (\<exists>ls. s = concat ls \<and> (\<forall>l\<in>set ls. l \<noteq> [] \<and> last l = CHR 0x0A)
           \<and> list_all2 (\<lambda>l n. \<exists>lv. um l = Some lv \<and> ms (delete lv ''_stream_id'') = Some n)
                ls (LogLines res)))
   \<and> dom (delete lv ''_stream_id'') = dom lv - {''_stream_id''}
   \<and> (\<forall>k. k \<noteq> ''_stream_id'' \<longrightarrow> delete lv ''_stream_id'' k = lv k)
   \<and> ''_stream_id'' \<in> dom (wireLine fm sid)
   \<and> delete (wireLine fm sid) ''_stream_id'' = delete fm ''_stream_id''"
proof (intro conjI allI impI)
  show "NewLogsQLQueryResponse um ms [] = Return \<lparr>LogLines = []\<rparr>"
    by (simp add: NewLogsQLQueryResponse_def)
next
  fix res assume r: "NewLogsQLQueryResponse um ms s = Return res"
  show "\<exists>ls. s = concat ls \<and> (\<forall>l\<in>set ls. l \<noteq> [] \<and> last l = CHR 0x0A)
           \<and> list_all2 (\<lambda>l n. \<exists>lv. um l = Some lv \<and> ms (delete lv ''_stream_id'') = Some n)
                ls (LogLines res)"
  proof (cases "s = []")
    case True
    with r have "LogLines res = []" by (auto simp: NewLogsQLQueryResponse_def)
    with True show ?thesis by (intro exI [of _ "[]"]) simp
  next
    case False
    with r obtain out where out: "readLogLines um ms s [] = Return out" "LogLines res = out"
      by (cases "readLogLines um ms s []") (auto simp: NewLogsQLQueryResponse_def)
    from readLogLines_Return [OF out(1)] out(2) show ?thesis by auto
  qed
qed (auto simp: delete_def wireLine_def)


theorem C9_parsed_response_witness:
  "NewLogsQLQueryResponse unmarshal0 marshal0 wireBody0 = Return \<lparr>LogLines = [''_msg,x'', ''x'']\<rparr>
   \<and> (\<exists>ls. wireBody0 = concat ls
          \<and> list_all2 (\<lambda>l n. \<exists>lv. unmarshal0 l = Some lv \<and> marshal0 (delete lv ''_stream_id'') = Some n)
                ls [''_msg,x'', ''x''])"
proof -
  have ev: "NewLogsQLQueryResponse unmarshal0 marshal0 wireBody0 = Return \<lparr>LogLines = [''_msg,x'', ''x'']\<rparr>"
    by code_simp
  from C9_parsed_response [of unmarshal0 marshal0 wireBody0 Map.empty Map.empty 0] ev
  show ?thesis by simp blast
qed

section \<open>Properties of the query results\<close>

lemma facetValueOrder_key:
  "(- int (snd a), fst a) \<le> (- int (snd b), fst b) \<Longrightarrow> facetValueOrder a b"
  by (auto simp: facetValueOrder_def less_eq_prod_def)

lemma facetValues_sorted:
  "sorted_wrt facetValueOrder (facetValues k m rows n)"
proof -
  let ?key = "\<lambda>vh::string \<times> nat. (- int (snd vh), fst vh)"
  let ?xs = "sort_key ?key (valueHits m rows n)"
  have "sorted (map ?key (take k ?xs))"
    by (simp add: take_map [symmetric])
  then have "sorted_wrt (\<lambda>a b. ?key a \<le> ?key b) (take k ?xs)"
    by (simp add: sorted_map)
  then have "sorted_wrt facetValueOrder (take k ?xs)"
    by (rule sorted_wrt_mono_rel [rotated]) (rule facetValueOrder_key)
  then show ?thesis by (simp add: facetValues_def)
qed

text \<open>
  C7: in a facets response the field entries are in ascending order of their names, each
  name once, and the values of each field are in descending order of hits, equal hits in
  ascending order of the value. The response that the cluster test expects is in that
  order too.
\<close>

theorem C7_facets_order:
  "sorted (map fst (facets k m rows)) \<and> distinct (map fst (facets k m rows))
   \<and> (\<forall>fv\<in>set (facets k m rows). sorted_wrt facetValueOrder (snd fv))
   \<and> sorted (map fst facetsWant) \<and> (\<forall>fv\<in>set facetsWant. sorted_wrt facetValueOrder (snd fv))"
proof (intro conjI ballI)
  show "sorted (map fst (facets k m rows))" by (simp add: facets_def comp_def)
  show "distinct (map fst (facets k m rows))" by (simp add: facets_def comp_def)
  show "sorted_wrt facetValueOrder (snd fv)" if "fv \<in> set (facets k m rows)" for fv
    using that by (auto simp: facets_def facetValues_sorted)
  show "sorted (map fst facetsWant)" by (simp add: facetsWant_def)
  show "sorted_wrt facetValueOrder (snd fv)" if "fv \<in> set facetsWant" for fv
    using that by (auto simp: facetsWant_def facetValueOrder_def)
qed

theorem C7_facets_order_witness:
  "facets 10 100 rows5 = [(''_msg'', [(''aa'', 2), (''abc'', 1), (''def'', 1), (''gh'', 1)]),
                          (''x'', [(''y'', 4), (''z'', 1)])]
   \<and> sorted_wrt facetValueOrder [(''aa'', 2), (''abc'', 1), (''def'', 1), (''gh'', 1)]
   \<and> sorted_wrt facetValueOrder [(''y'', 4), (''z'', 1)]"
proof -
  have ev: "facets 10 100 rows5 = [(''_msg'', [(''aa'', 2), (''abc'', 1), (''def'', 1), (''gh'', 1)]),
                          (''x'', [(''y'', 4), (''z'', 1)])]"
    by code_simp
  from C7_facets_order [of 10 100 rows5] show ?thesis unfolding ev by simp
qed

text \<open>
  C3: for the five records of the cluster test with the stream field \<^verbatim>\<open>x\<close>, the
  number of distinct streams is 2, the number of rows is 5, and the facets of the field
  \<^verbatim>\<open>x\<close> are the value \<^verbatim>\<open>y\<close> with 4 hits followed by the value \<^verbatim>\<open>z\<close> with
  1 hit, whenever the limits admit two values of one character.
\<close>

theorem C3_cluster_scenario:
  assumes "2 \<le> maxValuesPerField" and "1 \<le> maxValueLen"
  shows "countUniqStream testStreamFields (map jsonlineFields ingestRecords) = 2
    \<and> countRows (map jsonlineFields ingestRecords) = 5
    \<and> filter (\<lambda>e. field_name e = ''x'')
          (facetsPipe maxValuesPerField maxValueLen (map jsonlineFields ingestRecords))
        = [\<lparr>field_name = ''x'', field_value = ''y'', hits = 4\<rparr>,
           \<lparr>field_name = ''x'', field_value = ''z'', hits = 1\<rparr>]"
proof -
  let ?rows = "map jsonlineFields ingestRecords"
  have u: "countUniqStream testStreamFields ?rows = 2" by code_simp
  have c: "countRows ?rows = 5" by code_simp
  have names: "sort (remdups (map Name (concat ?rows))) = [''_msg'', ''x'']" by code_simp
  have t1: "take maxValueLen v = v" if "length v \<le> 1" for v :: string
    using that assms(2) by simp
  have vx: "valueHits maxValueLen ?rows ''x'' = [(''z'', 1), (''y'', 4)]"
    by (simp add: valueHits_def ingestRecords_def jsonlineFields_def t1)
  have sx: "sort_key (\<lambda>vh. (- int (snd vh), fst vh)) [(''z'', 1::nat), (''y'', 4)] = [(''y'', 4), (''z'', 1)]"
    by code_simp
  have fx: "facetValues maxValuesPerField maxValueLen ?rows ''x'' = [(''y'', 4), (''z'', 1)]"
    using assms(1) by (simp add: facetValues_def vx sx)
  show ?thesis
    by (simp add: u c facetsPipe_def facets_def names fx)
qed

theorem C3_cluster_scenario_witness:
  "filter (\<lambda>e. field_name e = ''x'') (facetsPipe 10 100 (map jsonlineFields ingestRecords))
        = [\<lparr>field_name = ''x'', field_value = ''y'', hits = 4\<rparr>,
           \<lparr>field_name = ''x'', field_value = ''z'', hits = 1\<rparr>]
   \<and> countUniqStream testStreamFields (map jsonlineFields ingestRecords) = 2"
  using C3_cluster_scenario [of 10 100] by simp


end
